theory Spec2Isabelle
  imports Main "HOL-Library.Word"
begin

section \<open>ESP32 Soil Sentinel: data model\<close>

text \<open>
  The sketch \<^verbatim>\<open>code/ESP32-Soil-Sentinel.ino\<close> is one polling loop over a handful of
  global variables. The model keeps the globals in a record, passes it through every
  function, and records every call that acts on the outside world (display, serial port,
  delays, WiFi, cloud client) as an event appended to a trace, in program order.

  Integer types. On the ESP32 \<^verbatim>\<open>int\<close>, \<^verbatim>\<open>long\<close> and \<^verbatim>\<open>unsigned long\<close> are 32 bits wide.
  The timestamp arithmetic \<^verbatim>\<open>millis() - lastConnectionTime > postingInterval\<close> is carried
  out in \<^verbatim>\<open>unsigned long\<close> (the \<^verbatim>\<open>long\<close> operands are converted), so the timestamp and the
  interval are 32-bit words and subtraction wraps around. The values of type \<^verbatim>\<open>int\<close>
  (sensor reading, thresholds, menu index, array length, HTTP code) are modelled as
  mathematical integers: the only arithmetic on them is the menu index update, whose
  operands lie between \<open>-1\<close> and twice the array length.
\<close>

subsection \<open>Plant profiles (lines 51-64)\<close>

record PlantProfile =
  name :: string
  drySoilMoisture :: int
  wetSoilMoisture :: int
  channelID :: "32 word"
  apiKey :: string

subsection \<open>Text that is printed\<close>

text \<open>
  Printed text is kept as a list of pieces, so that the Arduino conversions
  \<^verbatim>\<open>String(n)\<close> of an integer and \<^verbatim>\<open>String(x, 1)\<close> of a float stay symbolic.
  The type \<open>'f\<close> stands for the float values that are not NaN.
\<close>

datatype 'f piece = Str string | IntDec int | Float1 'f

subsection \<open>Calls that act on the outside world\<close>

datatype 'f event =
    SerialBegin nat
  | SerialPrintln "'f piece list"
  | LcdInit
  | LcdBacklight
  | LcdClear
  | LcdSetCursor nat nat
  | LcdPrint "'f piece list"
  | PinModeInputPullup nat
  | Delay nat
  | DhtBegin
  | WiFiBegin string string
  | ThingSpeakBegin
  | SetFieldFloat nat 'f
  | SetFieldInt nat int
  | SetStatus string
  | WriteFields "32 word" string

subsection \<open>Global variables (lines 60-73)\<close>

record 'f state =
  plantProfiles :: "PlantProfile list"
  numPlants :: int
  selectedPlantIndex :: int
  plantWasChosen :: bool
  calibrationMode :: bool
  lastConnectionTime :: "32 word"
  trace :: "'f event list"

definition postingInterval :: "32 word" where
  "postingInterval = 30000"

definition ssid :: string where
  "ssid = ''''"

definition password :: string where
  "password = ''''"

definition BUTTON_UP_PIN :: nat where
  "BUTTON_UP_PIN = 13"

definition BUTTON_DOWN_PIN :: nat where
  "BUTTON_DOWN_PIN = 12"

definition BUTTON_SELECT_PIN :: nat where
  "BUTTON_SELECT_PIN = 14"

text \<open>
  The initialisers of the globals. \<^verbatim>\<open>numPlants\<close> is
  \<^verbatim>\<open>sizeof(plantProfiles) / sizeof(PlantProfile)\<close>, the number of array elements.
\<close>

definition initial :: "PlantProfile list \<Rightarrow> 'f state" where
  "initial ps =
     \<lparr>plantProfiles = ps, numPlants = int (length ps), selectedPlantIndex = 0,
      plantWasChosen = False, calibrationMode = False, lastConnectionTime = 0,
      trace = []\<rparr>"

subsection \<open>What the program reads during one pass of \<^verbatim>\<open>loop()\<close>\<close>

text \<open>
  Each field is the value returned by one read of the environment. A button field is
  \<open>True\<close> when \<^verbatim>\<open>digitalRead\<close> returns \<^verbatim>\<open>LOW\<close> (pressed). \<open>wifiStatus k\<close> tells
  whether the \<open>k\<close>-th call of \<^verbatim>\<open>WiFi.status()\<close> in this pass returns
  \<^verbatim>\<open>WL_CONNECTED\<close>. A DHT reading is \<open>None\<close> when the library returns NaN.
\<close>

record 'f inputs =
  millisLoop :: "32 word"
  millisCycle :: "32 word"
  wifiStatus :: "nat \<Rightarrow> bool"
  buttonUp :: bool
  buttonDown :: bool
  buttonSelect :: bool
  analogSoil :: int
  dhtTemperature :: "'f option"
  dhtHumidity :: "'f option"
  httpCode :: int

subsection \<open>Undefined behaviour as an error value\<close>

datatype error = DivideByZero | IndexOutOfBounds

text \<open>The C++ remainder: the sign follows the dividend, a zero divisor traps.\<close>

definition c_rem :: "int \<Rightarrow> int \<Rightarrow> error + int" where
  "c_rem a b = (if b = 0 then Inl DivideByZero else Inr (sgn a * (\<bar>a\<bar> mod \<bar>b\<bar>)))"

text \<open>\<^verbatim>\<open>plantProfiles[selectedPlantIndex]\<close>: a read outside the array is an error.\<close>

definition currentProfile :: "'f state \<Rightarrow> error + PlantProfile" where
  "currentProfile s =
     (let i = selectedPlantIndex s
      in if 0 \<le> i \<and> i < int (length (plantProfiles s))
         then Inr (plantProfiles s ! nat i) else Inl IndexOutOfBounds)"

definition emit :: "'f event list \<Rightarrow> 'f state \<Rightarrow> 'f state" where
  "emit es s = s\<lparr>trace := trace s @ es\<rparr>"

section \<open>The functions of the sketch\<close>

subsection \<open>Soil classification (lines 230-239)\<close>

definition soilStatus :: "int \<Rightarrow> PlantProfile \<Rightarrow> string" where
  "soilStatus soilMoistureValue p =
     (if soilMoistureValue > drySoilMoisture p then ''Water the soil''
      else if soilMoistureValue < wetSoilMoisture p then ''Soil too wet''
      else ''Ideal soil'')"

subsection \<open>WiFi connection handler (lines 270-299)\<close>

text \<open>
  \<open>st k\<close> is the answer of the \<open>k\<close>-th call of \<^verbatim>\<open>WiFi.status()\<close> made
  inside \<^verbatim>\<open>connectWiFi\<close>: \<open>st 0\<close> at line 272, \<open>st (Suc attempts)\<close> at the loop
  condition of line 282 (the status is read before \<^verbatim>\<open>attempts < 20\<close> is tested, so it
  is read on every evaluation of the condition), and one more read at line 291.
  \<open>wifiWait\<close> is the \<^verbatim>\<open>while\<close> loop; it returns the final value of \<^verbatim>\<open>attempts\<close>.
\<close>

function wifiWait :: "(nat \<Rightarrow> bool) \<Rightarrow> nat \<Rightarrow> 'f state \<Rightarrow> nat \<times> 'f state" where
  "wifiWait st attempts s =
     (if \<not> st (Suc attempts) \<and> attempts < 20
      then wifiWait st (Suc attempts) (emit [LcdPrint [Str ''.''], Delay 500] s)
      else (attempts, s))"
  by pat_completeness auto
termination
  by (relation "measure (\<lambda>(st, attempts, s). 20 - attempts)") auto

definition connectWiFi :: "(nat \<Rightarrow> bool) \<Rightarrow> 'f state \<Rightarrow> 'f state" where
  "connectWiFi st s =
     (if st 0 then s
      else
        let s1 = emit [WiFiBegin ssid password, LcdClear, LcdSetCursor 0 0,
                       LcdPrint [Str ''Connecting WiFi'']] s;
            (attempts, s2) = wifiWait st 0 s1;
            s3 = emit [LcdClear, LcdSetCursor 0 0] s2;
            s4 = (if st (attempts + 2) then emit [LcdPrint [Str ''Connected!'']] s3
                  else emit [LcdPrint [Str ''Connection failed'']] s3)
        in emit [Delay 1000, LcdClear] s4)"

subsection \<open>Startup: the function \<^verbatim>\<open>setup\<close> (lines 78-115)\<close>

text \<open>
  \<open>selectHeld\<close> is the level of the select button read at line 97, \<open>st\<close> the
  answers of \<^verbatim>\<open>WiFi.status()\<close> during the call of \<^verbatim>\<open>connectWiFi\<close>.
\<close>

definition setupSketch :: "bool \<Rightarrow> (nat \<Rightarrow> bool) \<Rightarrow> 'f state \<Rightarrow> 'f state" where
  "setupSketch selectHeld st s =
     (let s1 = emit [SerialBegin 115200, LcdInit, LcdBacklight,
                     PinModeInputPullup BUTTON_UP_PIN, PinModeInputPullup BUTTON_DOWN_PIN,
                     PinModeInputPullup BUTTON_SELECT_PIN,
                     LcdSetCursor 0 0, LcdPrint [Str ''Starting...''], Delay 1000] s
      in if selectHeld
         then emit [LcdClear, LcdSetCursor 0 0, LcdPrint [Str ''Calibration Mode'']]
                (s1\<lparr>calibrationMode := True\<rparr>)
         else
           let s2 = emit [DhtBegin] (s1\<lparr>calibrationMode := False\<rparr>);
               s3 = connectWiFi st s2
           in emit [ThingSpeakBegin, LcdPrint [Str ''Select the''], LcdSetCursor 0 1,
                    LcdPrint [Str ''plant:''], Delay 2000] s3)"

subsection \<open>Calibration mode (lines 152-164)\<close>

definition runCalibrationMode :: "'f inputs \<Rightarrow> 'f state \<Rightarrow> 'f state" where
  "runCalibrationMode inp s =
     (let sensorValue = analogSoil inp
      in emit [LcdSetCursor 0 1, LcdPrint [Str ''Value: ''], LcdPrint [IntDec sensorValue],
               LcdPrint [Str ''   ''],
               SerialPrintln [Str ''Calibration Value: '', IntDec sensorValue],
               Delay 250] s)"

subsection \<open>Plant selection screen (lines 171-200)\<close>

text \<open>The three button blocks of \<^verbatim>\<open>selectionScreen\<close>, in the order of the source.\<close>

definition handleUp :: "'f inputs \<Rightarrow> 'f state \<Rightarrow> error + 'f state" where
  "handleUp inp s =
     (if buttonUp inp
      then (case c_rem (selectedPlantIndex s + 1) (numPlants s) of
              Inl e \<Rightarrow> Inl e
            | Inr i \<Rightarrow> Inr (emit [Delay 200] (s\<lparr>selectedPlantIndex := i\<rparr>)))
      else Inr s)"

definition handleDown :: "'f inputs \<Rightarrow> 'f state \<Rightarrow> error + 'f state" where
  "handleDown inp s =
     (if buttonDown inp
      then (case c_rem (selectedPlantIndex s - 1 + numPlants s) (numPlants s) of
              Inl e \<Rightarrow> Inl e
            | Inr i \<Rightarrow> Inr (emit [Delay 200] (s\<lparr>selectedPlantIndex := i\<rparr>)))
      else Inr s)"

definition handleSelect :: "'f inputs \<Rightarrow> 'f state \<Rightarrow> error + 'f state" where
  "handleSelect inp s =
     (if buttonSelect inp
      then (case currentProfile s of
              Inl e \<Rightarrow> Inl e
            | Inr p \<Rightarrow>
                Inr ((emit [LcdClear, LcdPrint [Str ''Monitoring:''], LcdSetCursor 0 1,
                            LcdPrint [Str (name p)], Delay 2000]
                        (s\<lparr>plantWasChosen := True\<rparr>))
                      \<lparr>lastConnectionTime := - postingInterval\<rparr>))
      else Inr s)"

definition selectionScreen :: "'f inputs \<Rightarrow> 'f state \<Rightarrow> error + 'f state" where
  "selectionScreen inp s =
     (case currentProfile s of
        Inl e \<Rightarrow> Inl e
      | Inr p \<Rightarrow>
          (let s1 = emit [LcdSetCursor 0 0, LcdPrint [Str (''Plant: '' @ name p @ '' '')],
                          LcdSetCursor 0 1, LcdPrint [Str ''< UP/DOWN >'']] s
           in case handleUp inp s1 of
                Inl e \<Rightarrow> Inl e
              | Inr s2 \<Rightarrow>
                  (case handleDown inp s2 of
                     Inl e \<Rightarrow> Inl e
                   | Inr s3 \<Rightarrow> handleSelect inp s3)))"

subsection \<open>Monitoring and data transmission (lines 206-263)\<close>

text \<open>
  \<^verbatim>\<open>WiFi.status()\<close> is read once at line 210 (\<open>wifiStatus inp 0\<close>); the reads inside
  \<^verbatim>\<open>connectWiFi\<close> are the following ones.
\<close>

definition monitoringAndSendingScreen :: "'f inputs \<Rightarrow> 'f state \<Rightarrow> error + 'f state" where
  "monitoringAndSendingScreen inp s =
     (let s1 = s\<lparr>lastConnectionTime := millisCycle inp\<rparr>;
          s2 = (if \<not> wifiStatus inp 0 then connectWiFi (\<lambda>k. wifiStatus inp (Suc k)) s1
                else s1)
      in case currentProfile s2 of
           Inl e \<Rightarrow> Inl e
         | Inr p \<Rightarrow>
             (let soilMoistureValue = analogSoil inp
              in case (dhtTemperature inp, dhtHumidity inp) of
                   (Some temperature, Some airHumidity) \<Rightarrow>
                     (let status = soilStatus soilMoistureValue p;
                          s3 = emit [LcdClear, LcdSetCursor 0 0,
                                     LcdPrint [Str ''T:'', Float1 temperature, Str ''C H:'',
                                               Float1 airHumidity, Str ''%''],
                                     LcdSetCursor 0 1, LcdPrint [Str status],
                                     SetFieldFloat 1 temperature,
                                     SetFieldInt 2 soilMoistureValue,
                                     SetFieldFloat 3 airHumidity,
                                     SetStatus (''Plant: '' @ name p @ '' - '' @ status),
                                     WriteFields (channelID p) (apiKey p)] s2
                      in if httpCode inp = 200
                         then Inr (emit [SerialPrintln
                                 [Str (''Data sent to channel: '' @ name p)]] s3)
                         else Inr (emit [SerialPrintln
                                 [Str ''Error sending data. HTTP Code: '',
                                  IntDec (httpCode inp)]] s3))
                 | _ \<Rightarrow> Inr (emit [SerialPrintln
                                 [Str ''Error reading from DHT sensor!'']] s2)))"

subsection \<open>Main loop (lines 120-145)\<close>

text \<open>The block of lines 135-142: in monitoring, the select button returns to the menu.\<close>

definition returnToSelection :: "'f inputs \<Rightarrow> 'f state \<Rightarrow> 'f state" where
  "returnToSelection inp s =
     (if buttonSelect inp
      then emit [LcdClear, LcdPrint [Str ''Select the''], LcdSetCursor 0 1,
                 LcdPrint [Str ''plant:''], Delay 500] (s\<lparr>plantWasChosen := False\<rparr>)
      else s)"

definition loop :: "'f inputs \<Rightarrow> 'f state \<Rightarrow> error + 'f state" where
  "loop inp s =
     (if calibrationMode s then Inr (runCalibrationMode inp s)
      else if \<not> plantWasChosen s then selectionScreen inp s
      else
        (case (if millisLoop inp - lastConnectionTime s > postingInterval
               then monitoringAndSendingScreen inp s else Inr s) of
           Inl e \<Rightarrow> Inl e
         | Inr s1 \<Rightarrow> Inr (returnToSelection inp s1)))"

text \<open>The Arduino runtime calls \<^verbatim>\<open>loop()\<close> again and again; \<open>run\<close> is a finite prefix.\<close>

fun run :: "'f inputs list \<Rightarrow> 'f state \<Rightarrow> error + 'f state" where
  "run [] s = Inr s"
| "run (inp # inps) s = (case loop inp s of Inl e \<Rightarrow> Inl e | Inr s' \<Rightarrow> run inps s')"

subsection \<open>Observations on a trace\<close>

fun isPost :: "'f event \<Rightarrow> bool" where
  "isPost (WriteFields c k) = True"
| "isPost _ = False"

fun isLog :: "'f event \<Rightarrow> bool" where
  "isLog (SerialPrintln t) = True"
| "isLog _ = False"

fun isDisplay :: "'f event \<Rightarrow> bool" where
  "isDisplay LcdInit = True"
| "isDisplay LcdBacklight = True"
| "isDisplay LcdClear = True"
| "isDisplay (LcdSetCursor c r) = True"
| "isDisplay (LcdPrint t) = True"
| "isDisplay _ = False"

fun delayOf :: "'f event \<Rightarrow> nat" where
  "delayOf (Delay ms) = ms"
| "delayOf _ = 0"

definition slept :: "'f event list \<Rightarrow> nat" where
  "slept es = sum_list (map delayOf es)"

text \<open>The dots and delays of \<open>n\<close> passes through the body of the connection loop.\<close>

definition wifiDots :: "nat \<Rightarrow> 'f event list" where
  "wifiDots n = concat (replicate n [LcdPrint [Str ''.''], Delay 500])"

text \<open>
  The state a correct start leaves behind: \<^verbatim>\<open>numPlants\<close> is the array length and the
  menu index addresses an element.
\<close>

definition indexValid :: "'f state \<Rightarrow> bool" where
  "indexValid s \<longleftrightarrow>
     numPlants s = int (length (plantProfiles s))
     \<and> 0 \<le> selectedPlantIndex s \<and> selectedPlantIndex s < numPlants s"

subsection \<open>A concrete configuration\<close>

text \<open>
  The two profiles of the README's configuration example, a monitoring state over them
  and one set of readings; float values are stood for by integers here.
\<close>

definition exampleProfiles :: "PlantProfile list" where
  "exampleProfiles =
     [\<lparr>name = ''Basil'', drySoilMoisture = 2100, wetSoilMoisture = 1400,
       channelID = 1234567, apiKey = ''KEY1''\<rparr>,
      \<lparr>name = ''Tomato'', drySoilMoisture = 2200, wetSoilMoisture = 1500,
       channelID = 7654321, apiKey = ''KEY2''\<rparr>]"

definition exampleSelecting :: "int state" where
  "exampleSelecting = initial exampleProfiles"

definition exampleMonitoring :: "int state" where
  "exampleMonitoring = (initial exampleProfiles)\<lparr>plantWasChosen := True\<rparr>"

definition exampleInputs :: "int inputs" where
  "exampleInputs =
     \<lparr>millisLoop = 40000, millisCycle = 40000, wifiStatus = (\<lambda>k. True),
      buttonUp = False, buttonDown = False, buttonSelect = False,
      analogSoil = 1800, dhtTemperature = Some 23, dhtHumidity = Some 65,
      httpCode = 200\<rparr>"

text \<open>
  The state reached from \<open>exampleSelecting\<close> by one pass of the loop with the select
  button pressed.
\<close>

definition exampleChosen :: "int state" where
  "exampleChosen =
     exampleSelecting\<lparr>plantWasChosen := True, lastConnectionTime := - 30000,
       trace := [LcdSetCursor 0 0, LcdPrint [Str ''Plant: Basil ''], LcdSetCursor 0 1,
                 LcdPrint [Str ''< UP/DOWN >''], LcdClear, LcdPrint [Str ''Monitoring:''],
                 LcdSetCursor 0 1, LcdPrint [Str ''Basil''], Delay 2000]\<rparr>"

section \<open>Auxiliary facts\<close>

subsection \<open>The connection loop\<close>

declare wifiWait.simps [simp del]

lemma wifiWait_step:
  "\<not> st (Suc attempts) \<and> attempts < 20 \<Longrightarrow>
   wifiWait st attempts s = wifiWait st (Suc attempts) (emit [LcdPrint [Str ''.''], Delay 500] s)"
  by (subst wifiWait.simps) simp

lemma wifiWait_done:
  "\<not> (\<not> st (Suc attempts) \<and> attempts < 20) \<Longrightarrow> wifiWait st attempts s = (attempts, s)"
  by (subst wifiWait.simps) auto

lemma emit_fields [simp]:
  "plantProfiles (emit es s) = plantProfiles s"
  "numPlants (emit es s) = numPlants s"
  "selectedPlantIndex (emit es s) = selectedPlantIndex s"
  "plantWasChosen (emit es s) = plantWasChosen s"
  "calibrationMode (emit es s) = calibrationMode s"
  "lastConnectionTime (emit es s) = lastConnectionTime s"
  "trace (emit es s) = trace s @ es"
  by (simp_all add: emit_def)

lemma emit_emit: "emit es (emit ds s) = emit (ds @ es) s"
  by (simp add: emit_def)

lemma emit_Nil: "emit [] s = s"
  by (simp add: emit_def)

lemma wifiDots_Suc: "wifiDots (Suc n) = [LcdPrint [Str ''.''], Delay 500] @ wifiDots n"
  by (simp add: wifiDots_def)

lemma wifiDots_0: "wifiDots 0 = []"
  by (simp add: wifiDots_def)

lemma wifiWait_fst_ge: "attempts \<le> fst (wifiWait st attempts s)"
proof (induction st attempts s rule: wifiWait.induct)
  case (1 st attempts s)
  show ?case
  proof (cases "\<not> st (Suc attempts) \<and> attempts < 20")
    case True
    with "1" have "Suc attempts \<le> fst (wifiWait st (Suc attempts) (emit [LcdPrint [Str ''.''], Delay 500] s))"
      by simp
    with True show ?thesis by (simp add: wifiWait_step)
  next
    case False
    then show ?thesis by (simp add: wifiWait_done)
  qed
qed

lemma wifiWait_fst_le: "attempts \<le> 20 \<Longrightarrow> fst (wifiWait st attempts s) \<le> 20"
proof (induction st attempts s rule: wifiWait.induct)
  case (1 st attempts s)
  show ?case
  proof (cases "\<not> st (Suc attempts) \<and> attempts < 20")
    case True
    with "1" show ?thesis by (simp add: wifiWait_step)
  next
    case False
    with "1.prems" show ?thesis by (simp add: wifiWait_done)
  qed
qed

lemma wifiWait_snd:
  "snd (wifiWait st attempts s) = emit (wifiDots (fst (wifiWait st attempts s) - attempts)) s"
proof (induction st attempts s rule: wifiWait.induct)
  case (1 st attempts s)
  show ?case
  proof (cases "\<not> st (Suc attempts) \<and> attempts < 20")
    case True
    let ?s' = "emit [LcdPrint [Str ''.''], Delay 500] s"
    let ?n = "fst (wifiWait st (Suc attempts) ?s')"
    have step: "wifiWait st attempts s = wifiWait st (Suc attempts) ?s'"
      using True by (rule wifiWait_step)
    have ge: "Suc attempts \<le> ?n" by (rule wifiWait_fst_ge)
    then have "?n - attempts = Suc (?n - Suc attempts)" by simp
    then have dots: "wifiDots (?n - attempts) =
        [LcdPrint [Str ''.''], Delay 500] @ wifiDots (?n - Suc attempts)"
      by (simp only: wifiDots_Suc)
    have "snd (wifiWait st attempts s) = snd (wifiWait st (Suc attempts) ?s')"
      by (simp only: step)
    also have "\<dots> = emit (wifiDots (?n - Suc attempts)) ?s'"
      using True "1" by simp
    also have "\<dots> = emit ([LcdPrint [Str ''.''], Delay 500] @ wifiDots (?n - Suc attempts)) s"
      by (rule emit_emit)
    also have "\<dots> = emit (wifiDots (?n - attempts)) s"
      by (simp only: dots)
    finally show ?thesis by (simp only: step)
  next
    case False
    then show ?thesis by (simp add: wifiDots_0 emit_Nil wifiWait_done)
  qed
qed

lemma wifiWait_failed_polls:
  "attempts \<le> k \<Longrightarrow> k < fst (wifiWait st attempts s) \<Longrightarrow> \<not> st (Suc k)"
proof (induction st attempts s rule: wifiWait.induct)
  case (1 st attempts s)
  show ?case
  proof (cases "\<not> st (Suc attempts) \<and> attempts < 20")
    case True
    show ?thesis
    proof (cases "k = attempts")
      case True
      with \<open>\<not> st (Suc attempts) \<and> attempts < 20\<close> show ?thesis by simp
    next
      case False
      with "1.prems" have "Suc attempts \<le> k" by simp
      moreover from True "1.prems" have "k < fst (wifiWait st (Suc attempts) (emit [LcdPrint [Str ''.''], Delay 500] s))"
        by (simp add: wifiWait_step)
      ultimately show ?thesis using "1.IH" True by blast
    qed
  next
    case False
    with "1.prems" show ?thesis by (simp add: wifiWait_done)
  qed
qed

lemma wifiWait_stop:
  "fst (wifiWait st attempts s) < 20 \<Longrightarrow> st (Suc (fst (wifiWait st attempts s)))"
proof (induction st attempts s rule: wifiWait.induct)
  case (1 st attempts s)
  show ?case
  proof (cases "\<not> st (Suc attempts) \<and> attempts < 20")
    case True
    with "1" show ?thesis by (simp add: wifiWait_step)
  next
    case False
    with "1.prems" show ?thesis by (simp add: wifiWait_done)
  qed
qed

lemma slept_wifiDots: "slept (wifiDots n) = 500 * n"
  by (induction n) (simp_all add: wifiDots_def slept_def)

subsection \<open>The connection handler only writes to the trace\<close>

lemma connectWiFi_connected: "st 0 \<Longrightarrow> connectWiFi st s = s"
  by (simp add: connectWiFi_def)

lemma connectWiFi_shape:
  assumes "\<not> st 0"
  shows "\<exists>n\<le>20.
           connectWiFi st s =
             emit ([WiFiBegin ssid password, LcdClear, LcdSetCursor 0 0,
                    LcdPrint [Str ''Connecting WiFi'']] @ wifiDots n @
                   [LcdClear, LcdSetCursor 0 0,
                    LcdPrint [Str (if st (n + 2) then ''Connected!'' else ''Connection failed'')],
                    Delay 1000, LcdClear]) s
         \<and> (\<forall>k<n. \<not> st (Suc k)) \<and> (n < 20 \<longrightarrow> st (Suc n))"
proof -
  let ?s1 = "emit [WiFiBegin ssid password, LcdClear, LcdSetCursor 0 0,
                   LcdPrint [Str ''Connecting WiFi'']] s"
  let ?n = "fst (wifiWait st 0 ?s1)"
  have le: "?n \<le> 20" by (rule wifiWait_fst_le) simp
  have snd: "snd (wifiWait st 0 ?s1) = emit (wifiDots ?n) ?s1"
    using wifiWait_snd [of st 0 ?s1] by simp
  have polls: "\<forall>k<?n. \<not> st (Suc k)"
    using wifiWait_failed_polls [of 0 _ st ?s1] by simp
  have stop: "?n < 20 \<longrightarrow> st (Suc ?n)"
    using wifiWait_stop [of st 0 ?s1] by simp
  have "connectWiFi st s =
          emit ([WiFiBegin ssid password, LcdClear, LcdSetCursor 0 0,
                 LcdPrint [Str ''Connecting WiFi'']] @ wifiDots ?n @
                [LcdClear, LcdSetCursor 0 0,
                 LcdPrint [Str (if st (?n + 2) then ''Connected!'' else ''Connection failed'')],
                 Delay 1000, LcdClear]) s"
    using assms snd
    by (simp add: connectWiFi_def Let_def split_beta emit_emit)
  with le polls stop show ?thesis by blast
qed

lemma quiet_wifiDots: "e \<in> set (wifiDots n) \<Longrightarrow> \<not> isPost e \<and> \<not> isLog e"
  by (induction n) (auto simp: wifiDots_def)

lemma connectWiFi_emit:
  "\<exists>es. connectWiFi st s = emit es s \<and> (\<forall>e\<in>set es. \<not> isPost e \<and> \<not> isLog e)
        \<and> (st 0 \<longrightarrow> es = []) \<and> (\<not> st 0 \<longrightarrow> (\<exists>ds. es = WiFiBegin ssid password # ds))"
proof (cases "st 0")
  case True
  then have "connectWiFi st s = emit [] s" by (simp add: connectWiFi_connected emit_Nil)
  with True show ?thesis by auto
next
  case False
  from False connectWiFi_shape [of st s] obtain n where
    eq: "connectWiFi st s =
             emit ([WiFiBegin ssid password, LcdClear, LcdSetCursor 0 0,
                    LcdPrint [Str ''Connecting WiFi'']] @ wifiDots n @
                   [LcdClear, LcdSetCursor 0 0,
                    LcdPrint [Str (if st (n + 2) then ''Connected!'' else ''Connection failed'')],
                    Delay 1000, LcdClear]) s"
    by blast
  show ?thesis
    apply (rule exI, intro conjI)
       apply (rule eq)
    using False by (auto dest: quiet_wifiDots)
qed

lemma connectWiFi_fields [simp]:
  "plantProfiles (connectWiFi st s) = plantProfiles s"
  "numPlants (connectWiFi st s) = numPlants s"
  "selectedPlantIndex (connectWiFi st s) = selectedPlantIndex s"
  "plantWasChosen (connectWiFi st s) = plantWasChosen s"
  "calibrationMode (connectWiFi st s) = calibrationMode s"
  "lastConnectionTime (connectWiFi st s) = lastConnectionTime s"
  using connectWiFi_emit [of st s] by auto

lemma quiet_filter:
  "\<forall>e\<in>set pre. \<not> isPost e \<and> \<not> isLog e \<Longrightarrow> filter isPost pre = [] \<and> filter isLog pre = []"
  by (induction pre) auto

subsection \<open>Reading the selected profile\<close>

lemma currentProfile_emit [simp]: "currentProfile (emit es s) = currentProfile s"
  by (simp add: currentProfile_def Let_def cong: if_cong)

lemma currentProfile_lastConnectionTime [simp]:
  "currentProfile (s\<lparr>lastConnectionTime := t\<rparr>) = currentProfile s"
  by (simp add: currentProfile_def Let_def cong: if_cong)

lemma currentProfile_valid:
  "indexValid s \<Longrightarrow> currentProfile s = Inr (plantProfiles s ! nat (selectedPlantIndex s))"
  by (simp add: currentProfile_def indexValid_def)

lemma indexValid_emit [simp]: "indexValid (emit es s) = indexValid s"
  by (simp add: indexValid_def)

lemma indexValid_cong:
  "plantProfiles s' = plantProfiles s \<Longrightarrow> numPlants s' = numPlants s \<Longrightarrow>
   selectedPlantIndex s' = selectedPlantIndex s \<Longrightarrow> indexValid s' = indexValid s"
  by (simp add: indexValid_def)

lemma indexValid_initial: "ps \<noteq> [] \<Longrightarrow> indexValid (initial ps)"
  by (simp add: indexValid_def initial_def)

lemma indexValid_index:
  "indexValid s \<Longrightarrow> 0 \<le> i \<Longrightarrow> i < numPlants s \<Longrightarrow> indexValid (s\<lparr>selectedPlantIndex := i\<rparr>)"
  by (simp add: indexValid_def)

lemma indexValid_up:
  assumes "indexValid s"
  shows "indexValid (s\<lparr>selectedPlantIndex := (selectedPlantIndex s + 1) mod numPlants s\<rparr>)"
proof -
  from assms have "0 < numPlants s" unfolding indexValid_def by linarith
  then have "0 \<le> (selectedPlantIndex s + 1) mod numPlants s"
    and "(selectedPlantIndex s + 1) mod numPlants s < numPlants s"
    by simp_all
  with assms show ?thesis by (rule indexValid_index)
qed

lemma indexValid_down:
  assumes "indexValid s"
  shows "indexValid (s\<lparr>selectedPlantIndex :=
                         (selectedPlantIndex s - 1 + numPlants s) mod numPlants s\<rparr>)"
proof -
  from assms have "0 < numPlants s" unfolding indexValid_def by linarith
  then have "0 \<le> (selectedPlantIndex s - 1 + numPlants s) mod numPlants s"
    and "(selectedPlantIndex s - 1 + numPlants s) mod numPlants s < numPlants s"
    by simp_all
  with assms show ?thesis by (rule indexValid_index)
qed

subsection \<open>Startup, calibration and the return to the menu\<close>

lemma setupSketch_fields [simp]:
  "plantProfiles (setupSketch sel st s) = plantProfiles s"
  "numPlants (setupSketch sel st s) = numPlants s"
  "selectedPlantIndex (setupSketch sel st s) = selectedPlantIndex s"
  "plantWasChosen (setupSketch sel st s) = plantWasChosen s"
  by (simp_all add: setupSketch_def Let_def)

lemma indexValid_setupSketch: "indexValid (setupSketch sel st s) = indexValid s"
  by (rule indexValid_cong) simp_all

lemma runCalibrationMode_fields [simp]:
  "plantProfiles (runCalibrationMode inp s) = plantProfiles s"
  "numPlants (runCalibrationMode inp s) = numPlants s"
  "selectedPlantIndex (runCalibrationMode inp s) = selectedPlantIndex s"
  "plantWasChosen (runCalibrationMode inp s) = plantWasChosen s"
  "calibrationMode (runCalibrationMode inp s) = calibrationMode s"
  by (simp_all add: runCalibrationMode_def Let_def)

lemma returnToSelection_obs [simp]:
  "filter isPost (trace (returnToSelection inp s)) = filter isPost (trace s)"
  "filter isLog (trace (returnToSelection inp s)) = filter isLog (trace s)"
  "lastConnectionTime (returnToSelection inp s) = lastConnectionTime s"
  "plantProfiles (returnToSelection inp s) = plantProfiles s"
  "numPlants (returnToSelection inp s) = numPlants s"
  "selectedPlantIndex (returnToSelection inp s) = selectedPlantIndex s"
  "calibrationMode (returnToSelection inp s) = calibrationMode s"
  by (simp_all add: returnToSelection_def)

lemma indexValid_returnToSelection [simp]: "indexValid (returnToSelection inp s) = indexValid s"
  by (rule indexValid_cong) simp_all

subsection \<open>The posting gate\<close>

lemma gate_unat: "(postingInterval < w) = (30000 < unat w)"
  by (simp add: postingInterval_def word_less_nat_alt)

lemma reset_timer_gate:
  "(postingInterval < now - (- postingInterval)) = (0 < unat now \<and> unat now < 2 ^ 32 - 30000)"
proof -
  have b: "unat now < 2 ^ 32" using unsigned_less [of now] by simp
  have eq: "now - (- postingInterval) = now + 30000" by (simp add: postingInterval_def)
  have u: "unat (now + 30000) = (unat now + 30000) mod 2 ^ 32"
    by (simp add: unat_word_ariths)
  have "(30000 < (unat now + 30000) mod 2 ^ 32) = (0 < unat now \<and> unat now < 2 ^ 32 - 30000)"
  proof (cases "unat now + 30000 < 2 ^ 32")
    case True
    then show ?thesis by simp
  next
    case False
    then have "(unat now + 30000) mod 2 ^ 32 = unat now + 30000 - 2 ^ 32"
      using b by (simp add: mod_if)
    with False b show ?thesis by simp
  qed
  then show ?thesis by (simp only: gate_unat eq u)
qed



subsection \<open>One monitoring cycle\<close>

lemma wifi_step:
  "\<exists>pre. (if \<not> wifiStatus inp 0 then connectWiFi (\<lambda>k. wifiStatus inp (Suc k)) s else s)
            = emit pre s
         \<and> (\<forall>e\<in>set pre. \<not> isPost e \<and> \<not> isLog e)
         \<and> (wifiStatus inp 0 \<longrightarrow> pre = [])
         \<and> (\<not> wifiStatus inp 0 \<and> \<not> wifiStatus inp 1 \<longrightarrow>
              (\<exists>ds. pre = WiFiBegin ssid password # ds))"
proof (cases "wifiStatus inp 0")
  case True
  then show ?thesis by (simp add: emit_Nil)
next
  case False
  from connectWiFi_emit [of "\<lambda>k. wifiStatus inp (Suc k)" s]
  obtain es where "connectWiFi (\<lambda>k. wifiStatus inp (Suc k)) s = emit es s"
    "\<forall>e\<in>set es. \<not> isPost e \<and> \<not> isLog e"
    "\<not> wifiStatus inp (Suc 0) \<longrightarrow> (\<exists>ds. es = WiFiBegin ssid password # ds)"
    by blast
  with False show ?thesis by auto
qed

lemma monitoring_nan:
  assumes valid: "indexValid s"
      and nan: "dhtTemperature inp = None \<or> dhtHumidity inp = None"
  shows "\<exists>pre. monitoringAndSendingScreen inp s =
                 Inr (emit (pre @ [SerialPrintln [Str ''Error reading from DHT sensor!'']])
                        (s\<lparr>lastConnectionTime := millisCycle inp\<rparr>))
         \<and> (\<forall>e\<in>set pre. \<not> isPost e \<and> \<not> isLog e)
         \<and> (wifiStatus inp 0 \<longrightarrow> pre = [])
         \<and> (\<not> wifiStatus inp 0 \<and> \<not> wifiStatus inp 1 \<longrightarrow>
              (\<exists>ds. pre = WiFiBegin ssid password # ds))"
proof -
  let ?s1 = "s\<lparr>lastConnectionTime := millisCycle inp\<rparr>"
  from wifi_step [of inp ?s1] obtain pre where
    step: "(if \<not> wifiStatus inp 0 then connectWiFi (\<lambda>k. wifiStatus inp (Suc k)) ?s1 else ?s1)
            = emit pre ?s1"
    and rest: "\<forall>e\<in>set pre. \<not> isPost e \<and> \<not> isLog e" "wifiStatus inp 0 \<longrightarrow> pre = []"
      "\<not> wifiStatus inp 0 \<and> \<not> wifiStatus inp 1 \<longrightarrow> (\<exists>ds. pre = WiFiBegin ssid password # ds)"
    by blast
  have cp: "currentProfile s = Inr (plantProfiles s ! nat (selectedPlantIndex s))"
    using valid by (rule currentProfile_valid)
  have "monitoringAndSendingScreen inp s =
          Inr (emit [SerialPrintln [Str ''Error reading from DHT sensor!'']] (emit pre ?s1))"
    unfolding monitoringAndSendingScreen_def Let_def step
    using nan cp by (auto split: option.splits)
  then have "monitoringAndSendingScreen inp s =
          Inr (emit (pre @ [SerialPrintln [Str ''Error reading from DHT sensor!'']]) ?s1)"
    by (simp only: emit_emit)
  with rest show ?thesis by blast
qed

lemma monitoring_ok:
  assumes valid: "indexValid s"
      and t: "dhtTemperature inp = Some t" and h: "dhtHumidity inp = Some h"
      and p: "p = plantProfiles s ! nat (selectedPlantIndex s)"
  shows "\<exists>pre. (\<forall>c. monitoringAndSendingScreen (inp\<lparr>httpCode := c\<rparr>) s =
                 Inr (emit (pre @
                   [LcdClear, LcdSetCursor 0 0,
                    LcdPrint [Str ''T:'', Float1 t, Str ''C H:'', Float1 h, Str ''%''],
                    LcdSetCursor 0 1, LcdPrint [Str (soilStatus (analogSoil inp) p)],
                    SetFieldFloat 1 t, SetFieldInt 2 (analogSoil inp), SetFieldFloat 3 h,
                    SetStatus (''Plant: '' @ name p @ '' - '' @ soilStatus (analogSoil inp) p),
                    WriteFields (channelID p) (apiKey p),
                    SerialPrintln
                      (if c = 200 then [Str (''Data sent to channel: '' @ name p)]
                       else [Str ''Error sending data. HTTP Code: '', IntDec c])])
                        (s\<lparr>lastConnectionTime := millisCycle inp\<rparr>)))
         \<and> (\<forall>e\<in>set pre. \<not> isPost e \<and> \<not> isLog e)
         \<and> (wifiStatus inp 0 \<longrightarrow> pre = [])
         \<and> (\<not> wifiStatus inp 0 \<and> \<not> wifiStatus inp 1 \<longrightarrow>
              (\<exists>ds. pre = WiFiBegin ssid password # ds))"
proof -
  let ?s1 = "s\<lparr>lastConnectionTime := millisCycle inp\<rparr>"
  let ?st = "\<lambda>k. wifiStatus inp (Suc k)"
  have cp: "currentProfile s = Inr p"
    using valid p by (simp add: currentProfile_valid)
  show ?thesis
  proof (cases "wifiStatus inp 0")
    case True
    show ?thesis
      apply (rule exI [of _ "[]"])
      using True t h cp by (simp add: monitoringAndSendingScreen_def Let_def emit_emit)
  next
    case False
    from connectWiFi_emit [of ?st ?s1] obtain es where
      cw: "connectWiFi ?st ?s1 = emit es ?s1"
      and quiet: "\<forall>e\<in>set es. \<not> isPost e \<and> \<not> isLog e"
      and first: "\<not> wifiStatus inp (Suc 0) \<longrightarrow> (\<exists>ds. es = WiFiBegin ssid password # ds)"
      by blast
    show ?thesis
      apply (rule exI [of _ es])
      using False t h cp quiet first
      by (simp add: monitoringAndSendingScreen_def Let_def cw emit_emit)
  qed
qed

lemma monitoring_valid:
  assumes valid: "indexValid s"
  shows "\<exists>s1. monitoringAndSendingScreen inp s = Inr s1 \<and> indexValid s1
           \<and> plantProfiles s1 = plantProfiles s \<and> numPlants s1 = numPlants s
           \<and> selectedPlantIndex s1 = selectedPlantIndex s
           \<and> calibrationMode s1 = calibrationMode s \<and> plantWasChosen s1 = plantWasChosen s
           \<and> lastConnectionTime s1 = millisCycle inp
           \<and> length (filter isLog (trace s1)) = Suc (length (filter isLog (trace s)))
           \<and> length (filter isPost (trace s1)) =
               (if dhtTemperature inp = None \<or> dhtHumidity inp = None
                then length (filter isPost (trace s))
                else Suc (length (filter isPost (trace s))))"
proof (cases "dhtTemperature inp = None \<or> dhtHumidity inp = None")
  case True
  from monitoring_nan [OF valid True] obtain pre where
    eq: "monitoringAndSendingScreen inp s =
           Inr (emit (pre @ [SerialPrintln [Str ''Error reading from DHT sensor!'']])
                  (s\<lparr>lastConnectionTime := millisCycle inp\<rparr>))"
    and quiet: "\<forall>e\<in>set pre. \<not> isPost e \<and> \<not> isLog e"
    by blast
  from quiet have f: "filter isPost pre = []" "filter isLog pre = []"
    using quiet_filter by blast+
  show ?thesis
    apply (rule exI, intro conjI)
             apply (rule eq)
    using valid True f by (simp_all add: indexValid_def)
next
  case False
  then obtain t h where t: "dhtTemperature inp = Some t" and h: "dhtHumidity inp = Some h"
    by auto
  define p where "p = plantProfiles s ! nat (selectedPlantIndex s)"
  from monitoring_ok [OF valid t h p_def] obtain pre where
    eq: "\<And>c. monitoringAndSendingScreen (inp\<lparr>httpCode := c\<rparr>) s =
                 Inr (emit (pre @
                   [LcdClear, LcdSetCursor 0 0,
                    LcdPrint [Str ''T:'', Float1 t, Str ''C H:'', Float1 h, Str ''%''],
                    LcdSetCursor 0 1, LcdPrint [Str (soilStatus (analogSoil inp) p)],
                    SetFieldFloat 1 t, SetFieldInt 2 (analogSoil inp), SetFieldFloat 3 h,
                    SetStatus (''Plant: '' @ name p @ '' - '' @ soilStatus (analogSoil inp) p),
                    WriteFields (channelID p) (apiKey p),
                    SerialPrintln
                      (if c = 200 then [Str (''Data sent to channel: '' @ name p)]
                       else [Str ''Error sending data. HTTP Code: '', IntDec c])])
                    (s\<lparr>lastConnectionTime := millisCycle inp\<rparr>))"
    and quiet: "\<forall>e\<in>set pre. \<not> isPost e \<and> \<not> isLog e"
    by blast
  from quiet have f: "filter isPost pre = []" "filter isLog pre = []"
    using quiet_filter by blast+
  have eq': "monitoringAndSendingScreen inp s =
                 Inr (emit (pre @
                   [LcdClear, LcdSetCursor 0 0,
                    LcdPrint [Str ''T:'', Float1 t, Str ''C H:'', Float1 h, Str ''%''],
                    LcdSetCursor 0 1, LcdPrint [Str (soilStatus (analogSoil inp) p)],
                    SetFieldFloat 1 t, SetFieldInt 2 (analogSoil inp), SetFieldFloat 3 h,
                    SetStatus (''Plant: '' @ name p @ '' - '' @ soilStatus (analogSoil inp) p),
                    WriteFields (channelID p) (apiKey p),
                    SerialPrintln
                      (if httpCode inp = 200 then [Str (''Data sent to channel: '' @ name p)]
                       else [Str ''Error sending data. HTTP Code: '', IntDec (httpCode inp)])])
                    (s\<lparr>lastConnectionTime := millisCycle inp\<rparr>))"
    using eq [of "httpCode inp"] by simp
  show ?thesis
    apply (rule exI, intro conjI)
             apply (rule eq')
    using valid False f by (simp_all add: indexValid_def)
qed

lemma monitoring_frame:
  assumes "monitoringAndSendingScreen inp s = Inr s'"
  shows "plantProfiles s' = plantProfiles s \<and> numPlants s' = numPlants s
     \<and> calibrationMode s' = calibrationMode s \<and> plantWasChosen s' = plantWasChosen s
     \<and> selectedPlantIndex s' = selectedPlantIndex s"
  using assms
  by (auto simp: monitoringAndSendingScreen_def Let_def
           split: sum.splits option.splits if_splits)

subsection \<open>The selection screen\<close>

lemma c_rem_nonneg: "0 \<le> a \<Longrightarrow> 0 < b \<Longrightarrow> c_rem a b = Inr (a mod b)"
  by (cases "a = 0") (simp_all add: c_rem_def)

lemma handleUp_valid:
  assumes "0 \<le> selectedPlantIndex s" "selectedPlantIndex s < numPlants s"
  shows "handleUp inp s =
           Inr (if buttonUp inp
                then emit [Delay 200]
                       (s\<lparr>selectedPlantIndex := (selectedPlantIndex s + 1) mod numPlants s\<rparr>)
                else s)"
  using assms by (simp add: handleUp_def c_rem_nonneg)

lemma handleDown_valid:
  assumes "0 \<le> selectedPlantIndex s" "selectedPlantIndex s < numPlants s"
  shows "handleDown inp s =
           Inr (if buttonDown inp
                then emit [Delay 200]
                       (s\<lparr>selectedPlantIndex :=
                            (selectedPlantIndex s - 1 + numPlants s) mod numPlants s\<rparr>)
                else s)"
  using assms by (simp add: handleDown_def c_rem_nonneg)

lemma handleSelect_valid:
  assumes "indexValid s"
  shows "handleSelect inp s =
           Inr (if buttonSelect inp
                then (emit [LcdClear, LcdPrint [Str ''Monitoring:''], LcdSetCursor 0 1,
                            LcdPrint [Str (name (plantProfiles s ! nat (selectedPlantIndex s)))],
                            Delay 2000]
                        (s\<lparr>plantWasChosen := True\<rparr>))\<lparr>lastConnectionTime := - postingInterval\<rparr>
                else s)"
proof -
  have "currentProfile s = Inr (plantProfiles s ! nat (selectedPlantIndex s))"
    using assms by (rule currentProfile_valid)
  then show ?thesis by (simp add: handleSelect_def)
qed

lemma selectionScreen_valid:
  assumes valid: "indexValid s"
  shows "\<exists>s'. selectionScreen inp s = Inr s' \<and> indexValid s'
           \<and> plantProfiles s' = plantProfiles s \<and> numPlants s' = numPlants s
           \<and> calibrationMode s' = calibrationMode s
           \<and> plantWasChosen s' = (plantWasChosen s \<or> buttonSelect inp)
           \<and> lastConnectionTime s' =
                (if buttonSelect inp then - postingInterval else lastConnectionTime s)
           \<and> filter isPost (trace s') = filter isPost (trace s)
           \<and> selectedPlantIndex s' =
               (let i1 = (if buttonUp inp then (selectedPlantIndex s + 1) mod numPlants s
                          else selectedPlantIndex s)
                in if buttonDown inp then (i1 - 1 + numPlants s) mod numPlants s else i1)"
proof -
  let ?p = "plantProfiles s ! nat (selectedPlantIndex s)"
  define s1 where "s1 = emit [LcdSetCursor 0 0, LcdPrint [Str (''Plant: '' @ name ?p @ '' '')],
                   LcdSetCursor 0 1, LcdPrint [Str ''< UP/DOWN >'']] s"
  define s2 where "s2 = (if buttonUp inp
             then emit [Delay 200]
                    (s1\<lparr>selectedPlantIndex := (selectedPlantIndex s1 + 1) mod numPlants s1\<rparr>)
             else s1)"
  define s3 where "s3 = (if buttonDown inp
             then emit [Delay 200]
                    (s2\<lparr>selectedPlantIndex :=
                          (selectedPlantIndex s2 - 1 + numPlants s2) mod numPlants s2\<rparr>)
             else s2)"
  have v1: "indexValid s1" using valid by (simp add: s1_def)
  have v2: "indexValid s2" using v1 indexValid_up [OF v1] by (simp add: s2_def)
  have v3: "indexValid s3" using v2 indexValid_down [OF v2] by (simp add: s3_def)
  have cp: "currentProfile s = Inr ?p" using valid by (rule currentProfile_valid)
  have up: "handleUp inp s1 = Inr s2"
    unfolding s2_def using v1 by (intro handleUp_valid) (simp_all add: indexValid_def)
  have down: "handleDown inp s2 = Inr s3"
    unfolding s3_def using v2 by (intro handleDown_valid) (simp_all add: indexValid_def)
  have sel: "selectionScreen inp s = handleSelect inp s3"
    by (simp only: selectionScreen_def cp sum.case Let_def s1_def [symmetric] up down)
  have f1: "plantProfiles s1 = plantProfiles s" "numPlants s1 = numPlants s"
    "calibrationMode s1 = calibrationMode s" "plantWasChosen s1 = plantWasChosen s"
    "lastConnectionTime s1 = lastConnectionTime s"
    "filter isPost (trace s1) = filter isPost (trace s)"
    "selectedPlantIndex s1 = selectedPlantIndex s"
    by (simp_all add: s1_def)
  have f2: "plantProfiles s2 = plantProfiles s" "numPlants s2 = numPlants s"
    "calibrationMode s2 = calibrationMode s" "plantWasChosen s2 = plantWasChosen s"
    "lastConnectionTime s2 = lastConnectionTime s"
    "filter isPost (trace s2) = filter isPost (trace s)"
    "selectedPlantIndex s2 = (if buttonUp inp then (selectedPlantIndex s + 1) mod numPlants s
                          else selectedPlantIndex s)"
    by (simp_all add: s2_def f1)
  have f3: "plantProfiles s3 = plantProfiles s" "numPlants s3 = numPlants s"
    "calibrationMode s3 = calibrationMode s" "plantWasChosen s3 = plantWasChosen s"
    "lastConnectionTime s3 = lastConnectionTime s"
    "filter isPost (trace s3) = filter isPost (trace s)"
    "selectedPlantIndex s3 =
               (let i1 = (if buttonUp inp then (selectedPlantIndex s + 1) mod numPlants s
                          else selectedPlantIndex s)
                in if buttonDown inp then (i1 - 1 + numPlants s) mod numPlants s else i1)"
    by (simp_all add: s3_def f2 Let_def)
  show ?thesis
  proof (cases "buttonSelect inp")
    case True
    let ?s4 = "(emit [LcdClear, LcdPrint [Str ''Monitoring:''], LcdSetCursor 0 1,
                            LcdPrint [Str (name (plantProfiles s3 ! nat (selectedPlantIndex s3)))],
                            Delay 2000]
                        (s3\<lparr>plantWasChosen := True\<rparr>))\<lparr>lastConnectionTime := - postingInterval\<rparr>"
    have "selectionScreen inp s = Inr ?s4"
      using True by (simp add: sel handleSelect_valid [OF v3])
    moreover have "indexValid ?s4" using v3 by (simp add: indexValid_def)
    ultimately show ?thesis using True f3 by simp
  next
    case False
    then have "selectionScreen inp s = Inr s3"
      by (simp add: sel handleSelect_valid [OF v3])
    with False v3 f3 show ?thesis by simp
  qed
qed

lemma handleUp_frame:
  "handleUp inp s = Inr s' \<Longrightarrow>
     plantProfiles s' = plantProfiles s \<and> numPlants s' = numPlants s
     \<and> calibrationMode s' = calibrationMode s \<and> plantWasChosen s' = plantWasChosen s"
  by (auto simp: handleUp_def split: if_splits sum.splits)

lemma handleDown_frame:
  "handleDown inp s = Inr s' \<Longrightarrow>
     plantProfiles s' = plantProfiles s \<and> numPlants s' = numPlants s
     \<and> calibrationMode s' = calibrationMode s \<and> plantWasChosen s' = plantWasChosen s"
  by (auto simp: handleDown_def split: if_splits sum.splits)

lemma handleSelect_frame:
  "handleSelect inp s = Inr s' \<Longrightarrow>
     plantProfiles s' = plantProfiles s \<and> numPlants s' = numPlants s
     \<and> calibrationMode s' = calibrationMode s
     \<and> plantWasChosen s' = (plantWasChosen s \<or> buttonSelect inp)"
  by (auto simp: handleSelect_def split: if_splits sum.splits)

lemma selectionScreen_frame:
  assumes "selectionScreen inp s = Inr s'"
  shows "plantProfiles s' = plantProfiles s \<and> numPlants s' = numPlants s
     \<and> calibrationMode s' = calibrationMode s
     \<and> plantWasChosen s' = (plantWasChosen s \<or> buttonSelect inp)"
proof -
  from assms obtain p s2 s3 where
    "currentProfile s = Inr p"
    and up: "handleUp inp (emit [LcdSetCursor 0 0, LcdPrint [Str (''Plant: '' @ name p @ '' '')],
                          LcdSetCursor 0 1, LcdPrint [Str ''< UP/DOWN >'']] s) = Inr s2"
    and down: "handleDown inp s2 = Inr s3"
    and sel: "handleSelect inp s3 = Inr s'"
    by (auto simp: selectionScreen_def Let_def split: sum.splits)
  from handleUp_frame [OF up] handleDown_frame [OF down] handleSelect_frame [OF sel]
  show ?thesis by simp
qed

subsection \<open>The loop\<close>

lemma loop_valid:
  assumes valid: "indexValid s"
  shows "\<exists>s'. loop inp s = Inr s' \<and> indexValid s'
           \<and> plantProfiles s' = plantProfiles s \<and> numPlants s' = numPlants s
           \<and> calibrationMode s' = calibrationMode s"
proof (cases "calibrationMode s")
  case True
  then have "loop inp s = Inr (runCalibrationMode inp s)" by (simp add: loop_def)
  moreover have "indexValid (runCalibrationMode inp s)"
    using valid by (simp add: indexValid_def)
  ultimately show ?thesis by simp
next
  case notcal: False
  show ?thesis
  proof (cases "plantWasChosen s")
    case False
    with notcal have "loop inp s = selectionScreen inp s" by (simp add: loop_def)
    with selectionScreen_valid [OF valid, of inp] show ?thesis by auto
  next
    case True
    show ?thesis
    proof (cases "postingInterval < millisLoop inp - lastConnectionTime s")
      case gate: True
      from monitoring_valid [OF valid, of inp] obtain s1 where
        "monitoringAndSendingScreen inp s = Inr s1" "indexValid s1"
        "plantProfiles s1 = plantProfiles s" "numPlants s1 = numPlants s"
        "calibrationMode s1 = calibrationMode s"
        by blast
      with notcal True gate show ?thesis by (simp add: loop_def)
    next
      case False
      with notcal True valid show ?thesis by (simp add: loop_def)
    qed
  qed
qed

lemma run_valid:
  "indexValid s \<Longrightarrow>
   \<exists>s'. run inps s = Inr s' \<and> indexValid s'
        \<and> plantProfiles s' = plantProfiles s \<and> numPlants s' = numPlants s"
proof (induction inps arbitrary: s)
  case Nil
  then show ?case by simp
next
  case (Cons inp inps)
  from loop_valid [OF Cons.prems, of inp] obtain s1 where
    s1: "loop inp s = Inr s1" "indexValid s1"
      "plantProfiles s1 = plantProfiles s" "numPlants s1 = numPlants s"
    by blast
  from Cons.IH [OF s1(2)] obtain s' where
    "run inps s1 = Inr s'" "indexValid s'"
    "plantProfiles s' = plantProfiles s1" "numPlants s' = numPlants s1"
    by blast
  with s1 show ?case by simp
qed

lemma loop_frame:
  assumes "loop inp s = Inr s'"
  shows "plantProfiles s' = plantProfiles s \<and> numPlants s' = numPlants s
     \<and> calibrationMode s' = calibrationMode s"
proof (cases "calibrationMode s")
  case True
  with assms show ?thesis by (auto simp: loop_def)
next
  case notcal: False
  show ?thesis
  proof (cases "plantWasChosen s")
    case False
    with notcal assms have "selectionScreen inp s = Inr s'" by (simp add: loop_def)
    from selectionScreen_frame [OF this] show ?thesis by simp
  next
    case True
    with notcal assms obtain s1 where
      s1: "(if postingInterval < millisLoop inp - lastConnectionTime s
            then monitoringAndSendingScreen inp s else Inr s) = Inr s1"
      and s': "s' = returnToSelection inp s1"
      by (auto simp: loop_def split: sum.splits)
    have "plantProfiles s1 = plantProfiles s \<and> numPlants s1 = numPlants s
          \<and> calibrationMode s1 = calibrationMode s"
    proof (cases "postingInterval < millisLoop inp - lastConnectionTime s")
      case True
      with s1 have "monitoringAndSendingScreen inp s = Inr s1" by simp
      from monitoring_frame [OF this] show ?thesis by simp
    next
      case False
      with s1 show ?thesis by simp
    qed
    with s' show ?thesis by simp
  qed
qed

lemma run_frame:
  "run inps s = Inr s' \<Longrightarrow>
     plantProfiles s' = plantProfiles s \<and> numPlants s' = numPlants s
     \<and> calibrationMode s' = calibrationMode s"
proof (induction inps arbitrary: s)
  case Nil
  then show ?case by simp
next
  case (Cons inp inps)
  then obtain s1 where s1: "loop inp s = Inr s1" and rest: "run inps s1 = Inr s'"
    by (auto split: sum.splits)
  from loop_frame [OF s1] Cons.IH [OF rest] show ?case by simp
qed



text \<open>
  Outside calibration the select button toggles between menu and monitoring, and nothing
  else changes the mode; leaving the menu sets the timestamp to \<open>- postingInterval\<close>.
\<close>

lemma mode_transitions:
  assumes valid: "indexValid s" and notcal: "\<not> calibrationMode s"
  shows "\<exists>s'. loop inp s = Inr s' \<and> \<not> calibrationMode s'
           \<and> plantWasChosen s' = (if buttonSelect inp then \<not> plantWasChosen s
                                   else plantWasChosen s)
           \<and> (\<not> plantWasChosen s \<and> buttonSelect inp \<longrightarrow>
                 lastConnectionTime s' = - postingInterval)"
proof (cases "plantWasChosen s")
  case False
  with notcal have "loop inp s = selectionScreen inp s" by (simp add: loop_def)
  with selectionScreen_valid [OF valid, of inp] False notcal show ?thesis by auto
next
  case True
  from monitoring_valid [OF valid, of inp] obtain s1 where
    s1: "monitoringAndSendingScreen inp s = Inr s1" "calibrationMode s1 = calibrationMode s"
      "plantWasChosen s1 = plantWasChosen s"
    by blast
  show ?thesis
  proof (cases "postingInterval < millisLoop inp - lastConnectionTime s")
    case gate: True
    with notcal True s1 show ?thesis by (simp add: loop_def returnToSelection_def)
  next
    case False
    with notcal True show ?thesis by (simp add: loop_def returnToSelection_def)
  qed
qed

section \<open>Properties\<close>

subsection \<open>Classifier\<close>

text \<open>
  C1. For every raw soil value and every profile whose dry threshold is above its wet
  threshold, the status is "Water the soil" exactly when the value is above the dry
  threshold, "Soil too wet" exactly when it is below the wet threshold, and "Ideal soil"
  otherwise. A value equal to either threshold is ideal. With dry 2100 and wet 1400 the
  values 2300, 1200 and 1800 give the three statuses in that order.
\<close>

theorem soilStatus_classifies:
  assumes "drySoilMoisture p > wetSoilMoisture p"
  shows "(soilStatus v p = ''Water the soil'' \<longleftrightarrow> v > drySoilMoisture p)
       \<and> (soilStatus v p = ''Soil too wet'' \<longleftrightarrow> v < wetSoilMoisture p)
       \<and> (soilStatus v p = ''Ideal soil'' \<longleftrightarrow> wetSoilMoisture p \<le> v \<and> v \<le> drySoilMoisture p)
       \<and> soilStatus (drySoilMoisture p) p = ''Ideal soil''
       \<and> soilStatus (wetSoilMoisture p) p = ''Ideal soil''
       \<and> (drySoilMoisture p = 2100 \<and> wetSoilMoisture p = 1400 \<longrightarrow>
            soilStatus 2300 p = ''Water the soil''
          \<and> soilStatus 1200 p = ''Soil too wet''
          \<and> soilStatus 1800 p = ''Ideal soil'')"
  using assms by (auto simp: soilStatus_def)

theorem soilStatus_classifies_witness:
  "soilStatus 2300 \<lparr>name = ''Basil'', drySoilMoisture = 2100, wetSoilMoisture = 1400,
      channelID = 1234567, apiKey = ''KEY''\<rparr> = ''Water the soil''
   \<and> soilStatus 1200 \<lparr>name = ''Basil'', drySoilMoisture = 2100, wetSoilMoisture = 1400,
      channelID = 1234567, apiKey = ''KEY''\<rparr> = ''Soil too wet''
   \<and> soilStatus 1800 \<lparr>name = ''Basil'', drySoilMoisture = 2100, wetSoilMoisture = 1400,
      channelID = 1234567, apiKey = ''KEY''\<rparr> = ''Ideal soil''
   \<and> soilStatus 2100 \<lparr>name = ''Basil'', drySoilMoisture = 2100, wetSoilMoisture = 1400,
      channelID = 1234567, apiKey = ''KEY''\<rparr> = ''Ideal soil''"
  using soilStatus_classifies [of "\<lparr>name = ''Basil'', drySoilMoisture = 2100,
      wetSoilMoisture = 1400, channelID = 1234567, apiKey = ''KEY''\<rparr>" 2300]
  by simp

subsection \<open>Sensor failure\<close>

text \<open>
  C2 (as amended). When the temperature or the humidity reading is NaN, a monitoring
  cycle performs no cloud post and prints exactly one log line; the profiles, the menu
  index and the mode flags are unchanged. The cycle has already stored the current
  \<^verbatim>\<open>millis()\<close> in \<^verbatim>\<open>lastConnectionTime\<close>, and when WiFi was down at its start
  it has run \<^verbatim>\<open>connectWiFi\<close> first, which writes to the display. With WiFi up at
  the start the trace grows by the log line only, so the display is untouched.
\<close>

theorem sensor_failure_skips_post:
  assumes valid: "indexValid s"
      and nan: "dhtTemperature inp = None \<or> dhtHumidity inp = None"
  shows "\<exists>s'. monitoringAndSendingScreen inp s = Inr s'
           \<and> filter isPost (trace s') = filter isPost (trace s)
           \<and> filter isLog (trace s') =
               filter isLog (trace s) @ [SerialPrintln [Str ''Error reading from DHT sensor!'']]
           \<and> plantProfiles s' = plantProfiles s \<and> numPlants s' = numPlants s
           \<and> selectedPlantIndex s' = selectedPlantIndex s
           \<and> plantWasChosen s' = plantWasChosen s \<and> calibrationMode s' = calibrationMode s
           \<and> lastConnectionTime s' = millisCycle inp
           \<and> (wifiStatus inp 0 \<longrightarrow>
                trace s' = trace s @ [SerialPrintln [Str ''Error reading from DHT sensor!'']])
           \<and> (\<not> wifiStatus inp 0 \<longrightarrow>
                s' = emit [SerialPrintln [Str ''Error reading from DHT sensor!'']]
                       (connectWiFi (\<lambda>k. wifiStatus inp (Suc k))
                          (s\<lparr>lastConnectionTime := millisCycle inp\<rparr>)))"
proof -
  from monitoring_nan [OF valid nan] obtain pre where
    eq: "monitoringAndSendingScreen inp s =
           Inr (emit (pre @ [SerialPrintln [Str ''Error reading from DHT sensor!'']])
                  (s\<lparr>lastConnectionTime := millisCycle inp\<rparr>))"
    and quiet: "\<forall>e\<in>set pre. \<not> isPost e \<and> \<not> isLog e"
    and conn: "wifiStatus inp 0 \<longrightarrow> pre = []"
    by blast
  from quiet have f: "filter isPost pre = []" "filter isLog pre = []"
    using quiet_filter by blast+
  have down: "\<not> wifiStatus inp 0 \<longrightarrow>
      monitoringAndSendingScreen inp s =
        Inr (emit [SerialPrintln [Str ''Error reading from DHT sensor!'']]
               (connectWiFi (\<lambda>k. wifiStatus inp (Suc k))
                  (s\<lparr>lastConnectionTime := millisCycle inp\<rparr>)))"
    using nan currentProfile_valid [OF valid] connectWiFi_emit [of "\<lambda>k. wifiStatus inp (Suc k)"
        "s\<lparr>lastConnectionTime := millisCycle inp\<rparr>"]
    by (auto simp: monitoringAndSendingScreen_def Let_def split: option.splits)
  show ?thesis
    apply (rule exI, intro conjI)
              apply (rule eq)
    using f conn down eq by simp_all
qed

theorem sensor_failure_skips_post_witness:
  "indexValid exampleMonitoring
   \<and> (dhtTemperature (exampleInputs\<lparr>dhtTemperature := None\<rparr>) = None
      \<or> dhtHumidity (exampleInputs\<lparr>dhtTemperature := None\<rparr>) = None)
   \<and> (\<exists>s'. monitoringAndSendingScreen (exampleInputs\<lparr>dhtTemperature := None\<rparr>)
               exampleMonitoring = Inr s'
            \<and> filter isPost (trace s') = filter isPost (trace exampleMonitoring)
            \<and> lastConnectionTime s' = millisCycle (exampleInputs\<lparr>dhtTemperature := None\<rparr>))"
proof -
  have valid: "indexValid exampleMonitoring"
    by (simp add: exampleMonitoring_def exampleProfiles_def initial_def indexValid_def)
  have nan: "dhtTemperature (exampleInputs\<lparr>dhtTemperature := None\<rparr>) = None
      \<or> dhtHumidity (exampleInputs\<lparr>dhtTemperature := None\<rparr>) = None"
    by simp
  from sensor_failure_skips_post [OF valid nan] valid nan show ?thesis by blast
qed

text \<open>
  The claim as first stated (no state change, no display write) fails: in the example the
  timestamp moves from 0 to 40000, and with WiFi down at the start of the cycle the
  display is cleared and written by the connection handler.
\<close>

theorem sensor_failure_side_effects_counterexample:
  "dhtTemperature (exampleInputs\<lparr>dhtTemperature := None\<rparr>) = None
   \<and> monitoringAndSendingScreen (exampleInputs\<lparr>dhtTemperature := None\<rparr>) exampleMonitoring
       = Inr (exampleMonitoring\<lparr>lastConnectionTime := 40000,
                trace := [SerialPrintln [Str ''Error reading from DHT sensor!'']]\<rparr>)
   \<and> monitoringAndSendingScreen (exampleInputs\<lparr>dhtTemperature := None\<rparr>) exampleMonitoring
       \<noteq> Inr (emit [SerialPrintln [Str ''Error reading from DHT sensor!'']] exampleMonitoring)
   \<and> monitoringAndSendingScreen
         (exampleInputs\<lparr>dhtTemperature := None, wifiStatus := (\<lambda>k. 2 \<le> k)\<rparr>) exampleMonitoring
       = Inr (exampleMonitoring\<lparr>lastConnectionTime := 40000,
                trace := [WiFiBegin '''' '''', LcdClear, LcdSetCursor 0 0,
                          LcdPrint [Str ''Connecting WiFi''], LcdClear, LcdSetCursor 0 0,
                          LcdPrint [Str ''Connected!''], Delay 1000, LcdClear,
                          SerialPrintln [Str ''Error reading from DHT sensor!'']]\<rparr>)"
  by (simp add: exampleMonitoring_def exampleInputs_def exampleProfiles_def initial_def
        monitoringAndSendingScreen_def connectWiFi_def wifiWait_done currentProfile_def
        emit_def ssid_def password_def)

subsection \<open>Post cadence\<close>

text \<open>
  C3 (as amended). In monitoring mode a cycle runs in a pass of the loop exactly when
  \<^verbatim>\<open>millis() - lastConnectionTime\<close>, computed modulo \<open>2^32\<close>, is strictly greater than
  30000: then the timestamp is renewed, one more log line is printed and, with valid
  readings, one more post is made. When the difference is at most 30000 the pass makes
  no post, prints no log line and leaves the timestamp alone.
\<close>

theorem post_gate_strict:
  assumes mode: "\<not> calibrationMode s" "plantWasChosen s"
      and valid: "indexValid s"
  shows "(30000 < unat (millisLoop inp - lastConnectionTime s) \<longrightarrow>
            (\<exists>s1. monitoringAndSendingScreen inp s = Inr s1
                 \<and> loop inp s = Inr (returnToSelection inp s1)
                 \<and> lastConnectionTime (returnToSelection inp s1) = millisCycle inp
                 \<and> length (filter isLog (trace (returnToSelection inp s1))) =
                     Suc (length (filter isLog (trace s)))
                 \<and> (dhtTemperature inp \<noteq> None \<and> dhtHumidity inp \<noteq> None \<longrightarrow>
                      length (filter isPost (trace (returnToSelection inp s1))) =
                        Suc (length (filter isPost (trace s))))))
       \<and> (unat (millisLoop inp - lastConnectionTime s) \<le> 30000 \<longrightarrow>
            loop inp s = Inr (returnToSelection inp s)
          \<and> lastConnectionTime (returnToSelection inp s) = lastConnectionTime s
          \<and> filter isLog (trace (returnToSelection inp s)) = filter isLog (trace s)
          \<and> filter isPost (trace (returnToSelection inp s)) = filter isPost (trace s))"
proof (intro conjI impI)
  assume gate: "30000 < unat (millisLoop inp - lastConnectionTime s)"
  from monitoring_valid [OF valid, of inp] obtain s1 where
    s1: "monitoringAndSendingScreen inp s = Inr s1"
      "lastConnectionTime s1 = millisCycle inp"
      "length (filter isLog (trace s1)) = Suc (length (filter isLog (trace s)))"
      "length (filter isPost (trace s1)) =
               (if dhtTemperature inp = None \<or> dhtHumidity inp = None
                then length (filter isPost (trace s))
                else Suc (length (filter isPost (trace s))))"
    by blast
  have "loop inp s = Inr (returnToSelection inp s1)"
    using mode gate s1(1) by (simp add: loop_def gate_unat)
  with s1 show "\<exists>s1. monitoringAndSendingScreen inp s = Inr s1
                 \<and> loop inp s = Inr (returnToSelection inp s1)
                 \<and> lastConnectionTime (returnToSelection inp s1) = millisCycle inp
                 \<and> length (filter isLog (trace (returnToSelection inp s1))) =
                     Suc (length (filter isLog (trace s)))
                 \<and> (dhtTemperature inp \<noteq> None \<and> dhtHumidity inp \<noteq> None \<longrightarrow>
                      length (filter isPost (trace (returnToSelection inp s1))) =
                        Suc (length (filter isPost (trace s))))"
    by auto
next
  assume "unat (millisLoop inp - lastConnectionTime s) \<le> 30000"
  then show "loop inp s = Inr (returnToSelection inp s)"
    using mode by (simp add: loop_def gate_unat)
qed simp_all

theorem post_gate_strict_witness:
  "\<not> calibrationMode exampleMonitoring \<and> plantWasChosen exampleMonitoring
   \<and> indexValid exampleMonitoring
   \<and> 30000 < unat (millisLoop exampleInputs - lastConnectionTime exampleMonitoring)
   \<and> length (filter isPost (trace (returnToSelection exampleInputs
        (exampleMonitoring\<lparr>lastConnectionTime := 40000,
           trace := [LcdClear, LcdSetCursor 0 0,
             LcdPrint [Str ''T:'', Float1 23, Str ''C H:'', Float1 65, Str ''%''],
             LcdSetCursor 0 1, LcdPrint [Str ''Ideal soil''],
             SetFieldFloat 1 23, SetFieldInt 2 1800, SetFieldFloat 3 65,
             SetStatus ''Plant: Basil - Ideal soil'', WriteFields 1234567 ''KEY1'',
             SerialPrintln [Str ''Data sent to channel: Basil'']]\<rparr>)))) = 1
   \<and> unat (millisLoop (exampleInputs\<lparr>millisLoop := 20000\<rparr>)
             - lastConnectionTime exampleMonitoring) \<le> 30000
   \<and> loop (exampleInputs\<lparr>millisLoop := 20000\<rparr>) exampleMonitoring = Inr exampleMonitoring"
  using post_gate_strict [of exampleMonitoring exampleInputs]
        post_gate_strict [of exampleMonitoring "exampleInputs\<lparr>millisLoop := 20000\<rparr>"]
  by (simp add: exampleMonitoring_def exampleInputs_def exampleProfiles_def initial_def
        indexValid_def returnToSelection_def)

text \<open>
  With "at least 30000" the claim fails at the boundary: at a difference of exactly 30000
  the pass changes nothing.
\<close>

theorem post_gate_boundary_counterexample:
  "\<not> calibrationMode exampleMonitoring \<and> plantWasChosen exampleMonitoring
   \<and> 30000 \<le> unat (millisLoop (exampleInputs\<lparr>millisLoop := 30000\<rparr>)
                     - lastConnectionTime exampleMonitoring)
   \<and> loop (exampleInputs\<lparr>millisLoop := 30000\<rparr>) exampleMonitoring = Inr exampleMonitoring"
  by (simp add: exampleMonitoring_def exampleInputs_def initial_def loop_def
        postingInterval_def returnToSelection_def)

subsection \<open>Mode transitions\<close>

text \<open>
  C4. A select press in the menu switches to monitoring and sets the timestamp to
  \<open>- postingInterval\<close>, which the source comments as "Trigger immediate first reading".
  In the last 30 seconds before \<^verbatim>\<open>millis()\<close> wraps around the next pass does not run a
  cycle: at \<open>millis() = 2^32 - 10000\<close> the difference is 20000 and the pass leaves the
  state as it is.
\<close>

theorem select_press_rollover_no_post:
  "\<not> calibrationMode exampleSelecting \<and> \<not> plantWasChosen exampleSelecting
   \<and> loop (exampleInputs\<lparr>buttonSelect := True\<rparr>) exampleSelecting = Inr exampleChosen
   \<and> plantWasChosen exampleChosen \<and> lastConnectionTime exampleChosen = - postingInterval
   \<and> loop (exampleInputs\<lparr>millisLoop := 4294957296\<rparr>) exampleChosen = Inr exampleChosen"
  by (simp add: exampleChosen_def exampleSelecting_def exampleInputs_def exampleProfiles_def
        initial_def loop_def selectionScreen_def handleUp_def handleDown_def handleSelect_def
        currentProfile_def emit_def postingInterval_def returnToSelection_def)

subsection \<open>Menu index\<close>

text \<open>
  C5. With the index \<open>i\<close> in \<open>[0, N)\<close>, \<open>N\<close> the number of profiles, the up button
  sets the index to \<open>(i + 1) mod N\<close> and the down button to \<open>(i - 1 + N) mod N\<close>; this
  holds for the two button blocks and for a pass of the loop in the menu with one of the
  two buttons pressed. With neither pressed the index stays.
\<close>

theorem index_wraps:
  assumes valid: "indexValid s"
  shows "(buttonUp inp \<longrightarrow>
            (\<exists>s'. handleUp inp s = Inr s'
                 \<and> selectedPlantIndex s' = (selectedPlantIndex s + 1) mod numPlants s))
       \<and> (buttonDown inp \<longrightarrow>
            (\<exists>s'. handleDown inp s = Inr s'
                 \<and> selectedPlantIndex s' =
                     (selectedPlantIndex s - 1 + numPlants s) mod numPlants s))
       \<and> (\<not> calibrationMode s \<and> \<not> plantWasChosen s \<and> buttonUp inp \<and> \<not> buttonDown inp \<longrightarrow>
            (\<exists>s'. loop inp s = Inr s'
                 \<and> selectedPlantIndex s' = (selectedPlantIndex s + 1) mod numPlants s))
       \<and> (\<not> calibrationMode s \<and> \<not> plantWasChosen s \<and> \<not> buttonUp inp \<and> buttonDown inp \<longrightarrow>
            (\<exists>s'. loop inp s = Inr s'
                 \<and> selectedPlantIndex s' =
                     (selectedPlantIndex s - 1 + numPlants s) mod numPlants s))
       \<and> (\<not> calibrationMode s \<and> \<not> plantWasChosen s \<and> \<not> buttonUp inp \<and> \<not> buttonDown inp \<longrightarrow>
            (\<exists>s'. loop inp s = Inr s' \<and> selectedPlantIndex s' = selectedPlantIndex s))"
proof -
  from valid have r: "0 \<le> selectedPlantIndex s" "selectedPlantIndex s < numPlants s"
    by (simp_all add: indexValid_def)
  from selectionScreen_valid [OF valid, of inp] obtain s' where
    s': "selectionScreen inp s = Inr s'"
      "selectedPlantIndex s' =
               (let i1 = (if buttonUp inp then (selectedPlantIndex s + 1) mod numPlants s
                          else selectedPlantIndex s)
                in if buttonDown inp then (i1 - 1 + numPlants s) mod numPlants s else i1)"
    by blast
  have sel: "\<not> calibrationMode s \<and> \<not> plantWasChosen s \<longrightarrow> loop inp s = Inr s'"
    using s'(1) by (simp add: loop_def)
  show ?thesis
    using sel s'(2) by (simp add: handleUp_valid [OF r] handleDown_valid [OF r])
qed

theorem index_wraps_witness:
  "indexValid (exampleSelecting\<lparr>selectedPlantIndex := 1\<rparr>)
   \<and> handleUp (exampleInputs\<lparr>buttonUp := True\<rparr>) (exampleSelecting\<lparr>selectedPlantIndex := 1\<rparr>)
       = Inr (emit [Delay 200] (exampleSelecting\<lparr>selectedPlantIndex := 0\<rparr>))
   \<and> handleDown (exampleInputs\<lparr>buttonDown := True\<rparr>) exampleSelecting
       = Inr (emit [Delay 200] (exampleSelecting\<lparr>selectedPlantIndex := 1\<rparr>))"
  using index_wraps [of "exampleSelecting\<lparr>selectedPlantIndex := 1\<rparr>"
                        "exampleInputs\<lparr>buttonUp := True\<rparr>"]
  by (simp add: exampleSelecting_def exampleInputs_def exampleProfiles_def initial_def
        indexValid_def handleUp_def handleDown_def c_rem_def)

text \<open>
  C7 (as amended). Provided the profile array is not empty, that is \<^verbatim>\<open>numPlants\<close> is at
  least 1, the index starts at 0, which is in range, and stays in \<open>[0, numPlants)\<close>
  after startup and any number of passes of the loop, none of which fails. Each of the
  three button blocks, and every pass, keeps a valid index valid.
\<close>

theorem selected_index_in_range:
  assumes "ps \<noteq> []"
  shows "selectedPlantIndex (initial ps :: 'f state) = 0
       \<and> 1 \<le> numPlants (initial ps :: 'f state)
       \<and> indexValid (initial ps :: 'f state)
       \<and> (\<exists>s'. run inps (setupSketch sel st (initial ps :: 'f state)) = Inr s'
                \<and> 0 \<le> selectedPlantIndex s' \<and> selectedPlantIndex s' < numPlants s'
                \<and> numPlants s' = int (length ps))
       \<and> (indexValid s \<longrightarrow>
            (\<exists>s'. handleUp inp s = Inr s' \<and> indexValid s')
          \<and> (\<exists>s'. handleDown inp s = Inr s' \<and> indexValid s')
          \<and> (\<exists>s'. handleSelect inp s = Inr s' \<and> indexValid s')
          \<and> (\<exists>s'. loop inp s = Inr s' \<and> indexValid s'))"
proof -
  have init: "indexValid (initial ps :: 'f state)"
    using assms by (rule indexValid_initial)
  then have "indexValid (setupSketch sel st (initial ps :: 'f state))"
    by (simp add: indexValid_setupSketch)
  from run_valid [OF this, of inps] have reach:
    "\<exists>s'. run inps (setupSketch sel st (initial ps :: 'f state)) = Inr s'
                \<and> 0 \<le> selectedPlantIndex s' \<and> selectedPlantIndex s' < numPlants s'
                \<and> numPlants s' = int (length ps)"
    by (auto simp: indexValid_def initial_def)
  have ops: "indexValid s \<longrightarrow>
            (\<exists>s'. handleUp inp s = Inr s' \<and> indexValid s')
          \<and> (\<exists>s'. handleDown inp s = Inr s' \<and> indexValid s')
          \<and> (\<exists>s'. handleSelect inp s = Inr s' \<and> indexValid s')
          \<and> (\<exists>s'. loop inp s = Inr s' \<and> indexValid s')"
  proof
    assume v: "indexValid s"
    then have r: "0 \<le> selectedPlantIndex s" "selectedPlantIndex s < numPlants s"
      by (simp_all add: indexValid_def)
    have "\<exists>s'. handleUp inp s = Inr s' \<and> indexValid s'"
      using v indexValid_up [OF v] by (simp add: handleUp_valid [OF r])
    moreover have "\<exists>s'. handleDown inp s = Inr s' \<and> indexValid s'"
      using v indexValid_down [OF v] by (simp add: handleDown_valid [OF r])
    moreover have "\<exists>s'. handleSelect inp s = Inr s' \<and> indexValid s'"
      using v by (simp add: handleSelect_valid [OF v] indexValid_def)
    moreover have "\<exists>s'. loop inp s = Inr s' \<and> indexValid s'"
      using loop_valid [OF v, of inp] by blast
    ultimately show "(\<exists>s'. handleUp inp s = Inr s' \<and> indexValid s')
          \<and> (\<exists>s'. handleDown inp s = Inr s' \<and> indexValid s')
          \<and> (\<exists>s'. handleSelect inp s = Inr s' \<and> indexValid s')
          \<and> (\<exists>s'. loop inp s = Inr s' \<and> indexValid s')"
      by blast
  qed
  have np: "1 \<le> numPlants (initial ps :: 'f state)"
    using assms by (cases ps) (simp_all add: initial_def)
  from np init reach ops show ?thesis by (simp add: initial_def)
qed

theorem selected_index_in_range_witness:
  "exampleProfiles \<noteq> []
   \<and> (\<exists>s'. run [exampleInputs\<lparr>buttonDown := True\<rparr>, exampleInputs\<lparr>buttonSelect := True\<rparr>]
              (setupSketch False (\<lambda>k. True) (initial exampleProfiles)) = Inr s'
          \<and> 0 \<le> selectedPlantIndex s' \<and> selectedPlantIndex s' < numPlants s')"
proof -
  have ne: "exampleProfiles \<noteq> []" by (simp add: exampleProfiles_def)
  from selected_index_in_range [OF ne, where sel = False and st = "\<lambda>k. True"
      and inps = "[exampleInputs\<lparr>buttonDown := True\<rparr>, exampleInputs\<lparr>buttonSelect := True\<rparr>]"] ne
  show ?thesis by blast
qed

text \<open>
  Without the precondition the claim fails: over the empty array \<^verbatim>\<open>numPlants\<close> is 0,
  the initial index 0 is not below it, and the first pass of the loop after startup reads
  \<^verbatim>\<open>plantProfiles[0]\<close> outside the array.
\<close>

theorem selected_index_empty_array_counterexample:
  "selectedPlantIndex (initial [] :: int state) = 0
   \<and> numPlants (initial [] :: int state) = 0
   \<and> \<not> selectedPlantIndex (initial [] :: int state) < numPlants (initial [] :: int state)
   \<and> loop exampleInputs (setupSketch False (wifiStatus exampleInputs) (initial []))
       = Inl IndexOutOfBounds"
  by (simp add: initial_def exampleInputs_def setupSketch_def connectWiFi_def loop_def
        selectionScreen_def currentProfile_def emit_def)

text \<open>
  C10. The remainder in the up and down blocks divides by zero exactly when the button
  is pressed and \<^verbatim>\<open>numPlants\<close> is 0. With \<^verbatim>\<open>numPlants\<close> at least 1 both blocks return a
  state, and neither the selection screen nor a pass of the loop divides by zero.
\<close>

theorem index_update_total:
  "(handleUp inp s = Inl DivideByZero \<longleftrightarrow> buttonUp inp \<and> numPlants s = 0)
   \<and> (handleDown inp s = Inl DivideByZero \<longleftrightarrow> buttonDown inp \<and> numPlants s = 0)
   \<and> (1 \<le> numPlants s \<longrightarrow>
         (\<exists>s'. handleUp inp s = Inr s') \<and> (\<exists>s'. handleDown inp s = Inr s')
       \<and> selectionScreen inp s \<noteq> Inl DivideByZero
       \<and> loop inp s \<noteq> Inl DivideByZero)"
proof -
  have up: "handleUp inp s = Inl DivideByZero \<longleftrightarrow> buttonUp inp \<and> numPlants s = 0" for s :: "'a state"
    by (simp add: handleUp_def c_rem_def)
  have down: "handleDown inp s = Inl DivideByZero \<longleftrightarrow> buttonDown inp \<and> numPlants s = 0"
    for s :: "'a state"
    by (simp add: handleDown_def c_rem_def)
  have tot: "1 \<le> numPlants s \<longrightarrow>
         (\<exists>s'. handleUp inp s = Inr s') \<and> (\<exists>s'. handleDown inp s = Inr s')"
    by (simp add: handleUp_def handleDown_def c_rem_def)
  have sel: "selectionScreen inp s \<noteq> Inl DivideByZero" if n: "1 \<le> numPlants s"
    for s :: "'a state"
  proof
    assume bad: "selectionScreen inp s = Inl DivideByZero"
    show False
    proof (cases "currentProfile s")
      case (Inl e)
      then have "e = IndexOutOfBounds"
        by (auto simp: currentProfile_def Let_def split: if_splits)
      with Inl bad show False by (simp add: selectionScreen_def)
    next
      case (Inr p)
      let ?s1 = "emit [LcdSetCursor 0 0, LcdPrint [Str (''Plant: '' @ name p @ '' '')],
                          LcdSetCursor 0 1, LcdPrint [Str ''< UP/DOWN >'']] s"
      show False
      proof (cases "handleUp inp ?s1")
        case (Inl e)
        with Inr bad have "handleUp inp ?s1 = Inl DivideByZero"
          by (simp add: selectionScreen_def)
        with n show False by (simp add: up)
      next
        case up2: (Inr s2)
        from handleUp_frame [OF up2] n have n2: "1 \<le> numPlants s2" by simp
        show False
        proof (cases "handleDown inp s2")
          case (Inl e)
          with Inr up2 bad have "handleDown inp s2 = Inl DivideByZero"
            by (simp add: selectionScreen_def)
          with n2 show False by (simp add: down)
        next
          case down3: (Inr s3)
          with Inr up2 bad have "handleSelect inp s3 = Inl DivideByZero"
            by (simp add: selectionScreen_def)
          then show False
            by (auto simp: handleSelect_def currentProfile_def Let_def
                     split: if_splits sum.splits)
        qed
      qed
    qed
  qed
  have mon: "monitoringAndSendingScreen inp s \<noteq> Inl DivideByZero"
    by (auto simp: monitoringAndSendingScreen_def currentProfile_def Let_def
             split: sum.splits option.splits if_splits)
  have lp: "1 \<le> numPlants s \<longrightarrow> loop inp s \<noteq> Inl DivideByZero"
    using sel [of s] mon by (auto simp: loop_def split: sum.splits if_splits)
  from up down tot sel lp show ?thesis by blast
qed

theorem index_update_total_witness:
  "1 \<le> numPlants exampleSelecting
   \<and> handleUp (exampleInputs\<lparr>buttonUp := True\<rparr>) exampleSelecting \<noteq> Inl DivideByZero
   \<and> handleUp (exampleInputs\<lparr>buttonUp := True\<rparr>) (initial [] :: int state) = Inl DivideByZero"
  using index_update_total [of "exampleInputs\<lparr>buttonUp := True\<rparr>" exampleSelecting]
        index_update_total [of "exampleInputs\<lparr>buttonUp := True\<rparr>" "initial [] :: int state"]
  by (simp add: exampleSelecting_def exampleInputs_def exampleProfiles_def initial_def)

subsection \<open>WiFi connection\<close>

text \<open>
  C6. \<^verbatim>\<open>connectWiFi\<close> returns the state unchanged when the first status read says
  connected. Otherwise it starts the association and runs the loop body \<open>n\<close> times,
  \<open>n\<close> at most 20, each pass printing a dot and waiting 500 ms (so at most 10000 ms in
  the loop); all status reads in the loop before the last were negative, and the loop
  stopped early only on a positive read. It then prints "Connected!" or "Connection
  failed" according to one more status read, waits 1000 ms and returns: it changes
  nothing but the trace. If no read is ever positive there are exactly 20 passes and the
  failure text is printed after 10000 ms of delays. A later monitoring cycle that finds
  WiFi down calls \<^verbatim>\<open>WiFi.begin\<close> again before anything else.
\<close>

theorem connectWiFi_bounded_retry:
  "(st 0 \<longrightarrow> connectWiFi st s = s)
   \<and> (\<not> st 0 \<longrightarrow>
        (\<exists>n\<le>20.
           connectWiFi st s =
             emit ([WiFiBegin ssid password, LcdClear, LcdSetCursor 0 0,
                    LcdPrint [Str ''Connecting WiFi'']] @ wifiDots n @
                   [LcdClear, LcdSetCursor 0 0,
                    LcdPrint [Str (if st (n + 2) then ''Connected!'' else ''Connection failed'')],
                    Delay 1000, LcdClear]) s
         \<and> slept (wifiDots n :: 'f event list) = 500 * n
         \<and> (\<forall>k<n. \<not> st (Suc k)) \<and> (n < 20 \<longrightarrow> st (Suc n))))
   \<and> ((\<forall>k. \<not> st k) \<longrightarrow>
        connectWiFi st s =
          emit ([WiFiBegin ssid password, LcdClear, LcdSetCursor 0 0,
                 LcdPrint [Str ''Connecting WiFi'']] @ wifiDots 20 @
                [LcdClear, LcdSetCursor 0 0, LcdPrint [Str ''Connection failed''],
                 Delay 1000, LcdClear]) s
        \<and> slept ([WiFiBegin ssid password, LcdClear, LcdSetCursor 0 0,
                   LcdPrint [Str ''Connecting WiFi'']] @ wifiDots 20
                  @ [LcdClear, LcdSetCursor 0 0 :: 'f event]) = 10000)
   \<and> (indexValid s \<and> \<not> wifiStatus inp 0 \<and> \<not> wifiStatus inp 1 \<longrightarrow>
        (\<exists>s' ds. monitoringAndSendingScreen inp s = Inr s'
                \<and> trace s' = trace s @ WiFiBegin ssid password # ds))"
proof (intro conjI impI)
  assume "st 0"
  then show "connectWiFi st s = s" by (rule connectWiFi_connected)
next
  assume "\<not> st 0"
  with connectWiFi_shape [of st s] show
    "\<exists>n\<le>20.
           connectWiFi st s =
             emit ([WiFiBegin ssid password, LcdClear, LcdSetCursor 0 0,
                    LcdPrint [Str ''Connecting WiFi'']] @ wifiDots n @
                   [LcdClear, LcdSetCursor 0 0,
                    LcdPrint [Str (if st (n + 2) then ''Connected!'' else ''Connection failed'')],
                    Delay 1000, LcdClear]) s
         \<and> slept (wifiDots n :: 'f event list) = 500 * n
         \<and> (\<forall>k<n. \<not> st (Suc k)) \<and> (n < 20 \<longrightarrow> st (Suc n))"
    by (simp add: slept_wifiDots)
next
  assume never: "\<forall>k. \<not> st k"
  then have "\<not> st 0" by simp
  with connectWiFi_shape [of st s] obtain n where
    n: "n \<le> 20" "n < 20 \<longrightarrow> st (Suc n)" and
    eq: "connectWiFi st s =
             emit ([WiFiBegin ssid password, LcdClear, LcdSetCursor 0 0,
                    LcdPrint [Str ''Connecting WiFi'']] @ wifiDots n @
                   [LcdClear, LcdSetCursor 0 0,
                    LcdPrint [Str (if st (n + 2) then ''Connected!'' else ''Connection failed'')],
                    Delay 1000, LcdClear]) s"
    by blast
  from n never have "n = 20" by auto
  with eq never show "connectWiFi st s =
          emit ([WiFiBegin ssid password, LcdClear, LcdSetCursor 0 0,
                 LcdPrint [Str ''Connecting WiFi'']] @ wifiDots 20 @
                [LcdClear, LcdSetCursor 0 0, LcdPrint [Str ''Connection failed''],
                 Delay 1000, LcdClear]) s"
    by simp
next
  have "slept (wifiDots 20 :: 'f event list) = 10000" by (simp add: slept_wifiDots)
  then show "slept ([WiFiBegin ssid password, LcdClear, LcdSetCursor 0 0,
                   LcdPrint [Str ''Connecting WiFi'']] @ wifiDots 20
                  @ [LcdClear, LcdSetCursor 0 0 :: 'f event]) = 10000"
    by (simp add: slept_def)
next
  assume a: "indexValid s \<and> \<not> wifiStatus inp 0 \<and> \<not> wifiStatus inp 1"
  then have valid: "indexValid s" and down: "\<not> wifiStatus inp 0 \<and> \<not> wifiStatus inp 1"
    by simp_all
  show "\<exists>s' ds. monitoringAndSendingScreen inp s = Inr s'
                \<and> trace s' = trace s @ WiFiBegin ssid password # ds"
  proof (cases "dhtTemperature inp = None \<or> dhtHumidity inp = None")
    case True
    from monitoring_nan [OF valid True] down obtain ds where
      "monitoringAndSendingScreen inp s =
           Inr (emit ((WiFiBegin ssid password # ds)
                      @ [SerialPrintln [Str ''Error reading from DHT sensor!'']])
                  (s\<lparr>lastConnectionTime := millisCycle inp\<rparr>))"
      by blast
    then show ?thesis by simp
  next
    case False
    then obtain t h where t: "dhtTemperature inp = Some t" and h: "dhtHumidity inp = Some h"
      by auto
    define p where "p = plantProfiles s ! nat (selectedPlantIndex s)"
    from monitoring_ok [OF valid t h p_def] down obtain ds evs where
      "monitoringAndSendingScreen (inp\<lparr>httpCode := httpCode inp\<rparr>) s =
           Inr (emit ((WiFiBegin ssid password # ds) @ evs)
                  (s\<lparr>lastConnectionTime := millisCycle inp\<rparr>))"
      by blast
    then show ?thesis by simp
  qed
qed

theorem connectWiFi_bounded_retry_witness:
  "connectWiFi (\<lambda>k. True) exampleSelecting = exampleSelecting
   \<and> (\<forall>k. \<not> (\<lambda>k. False) k)
   \<and> connectWiFi (\<lambda>k. False) exampleSelecting =
          emit ([WiFiBegin ssid password, LcdClear, LcdSetCursor 0 0,
                 LcdPrint [Str ''Connecting WiFi'']] @ wifiDots 20 @
                [LcdClear, LcdSetCursor 0 0, LcdPrint [Str ''Connection failed''],
                 Delay 1000, LcdClear]) exampleSelecting"
proof -
  from connectWiFi_bounded_retry [where st = "\<lambda>k. True" and s = exampleSelecting
      and inp = exampleInputs]
  have a: "connectWiFi (\<lambda>k. True) exampleSelecting = exampleSelecting" by simp
  from connectWiFi_bounded_retry [where st = "\<lambda>k. False" and s = exampleSelecting
      and inp = exampleInputs]
  have b: "connectWiFi (\<lambda>k. False) exampleSelecting =
          emit ([WiFiBegin ssid password, LcdClear, LcdSetCursor 0 0,
                 LcdPrint [Str ''Connecting WiFi'']] @ wifiDots 20 @
                [LcdClear, LcdSetCursor 0 0, LcdPrint [Str ''Connection failed''],
                 Delay 1000, LcdClear]) exampleSelecting"
    by blast
  from a b show ?thesis by simp
qed

subsection \<open>Cloud post failure\<close>



subsection \<open>Profiles are never written\<close>

text \<open>
  C9. Whenever a pass of the loop, the selection screen or a monitoring cycle returns,
  the profile array and \<^verbatim>\<open>numPlants\<close> are what they were; calibration, the connection
  handler and startup never touch them; the same holds over any number of passes. From
  the initial state over a non-empty array every run returns, with the array and its
  length intact.
\<close>

theorem profiles_immutable:
  "(loop inp s = Inr s' \<longrightarrow> plantProfiles s' = plantProfiles s \<and> numPlants s' = numPlants s)
   \<and> (selectionScreen inp s = Inr s' \<longrightarrow>
        plantProfiles s' = plantProfiles s \<and> numPlants s' = numPlants s)
   \<and> (monitoringAndSendingScreen inp s = Inr s' \<longrightarrow>
        plantProfiles s' = plantProfiles s \<and> numPlants s' = numPlants s)
   \<and> plantProfiles (runCalibrationMode inp s) = plantProfiles s
   \<and> numPlants (runCalibrationMode inp s) = numPlants s
   \<and> plantProfiles (connectWiFi st s) = plantProfiles s
   \<and> numPlants (connectWiFi st s) = numPlants s
   \<and> plantProfiles (setupSketch sel st s) = plantProfiles s
   \<and> numPlants (setupSketch sel st s) = numPlants s
   \<and> (run inps s = Inr s' \<longrightarrow> plantProfiles s' = plantProfiles s \<and> numPlants s' = numPlants s)
   \<and> (ps \<noteq> [] \<longrightarrow>
        (\<exists>sf. run inps (setupSketch sel st (initial ps :: 'f state)) = Inr sf
              \<and> plantProfiles sf = ps \<and> numPlants sf = int (length ps)))"
proof -
  have last: "ps \<noteq> [] \<longrightarrow>
        (\<exists>sf. run inps (setupSketch sel st (initial ps :: 'f state)) = Inr sf
              \<and> plantProfiles sf = ps \<and> numPlants sf = int (length ps))"
  proof
    assume "ps \<noteq> []"
    then have "indexValid (setupSketch sel st (initial ps :: 'f state))"
      by (simp add: indexValid_setupSketch indexValid_initial)
    from run_valid [OF this, of inps] show
      "\<exists>sf. run inps (setupSketch sel st (initial ps :: 'f state)) = Inr sf
              \<and> plantProfiles sf = ps \<and> numPlants sf = int (length ps)"
      by (auto simp: initial_def)
  qed
  show ?thesis
    using loop_frame [of inp s s'] selectionScreen_frame [of inp s s']
      monitoring_frame [of inp s s'] run_frame [of inps s s'] last
    by simp
qed

theorem profiles_immutable_witness:
  "exampleProfiles \<noteq> []
   \<and> (\<exists>sf. run [exampleInputs\<lparr>buttonSelect := True\<rparr>, exampleInputs]
              (setupSketch False (\<lambda>k. True) (initial exampleProfiles)) = Inr sf
          \<and> plantProfiles sf = exampleProfiles
          \<and> numPlants sf = int (length exampleProfiles))"
proof -
  have ne: "exampleProfiles \<noteq> []" by (simp add: exampleProfiles_def)
  from profiles_immutable [where ps = exampleProfiles and sel = False and st = "\<lambda>k. True"
      and inps = "[exampleInputs\<lparr>buttonSelect := True\<rparr>, exampleInputs]"] ne
  show ?thesis by blast
qed

end
